theory Spec2Isabelle
  imports Main "HOL-Library.Word" "HOL-Library.Sublist"
begin

unbundle bit_operations_syntax

section \<open>Start-up schema migration and admin seeding of the backend\<close>

text \<open>
  This theory embeds \<^verbatim>\<open>src/backend/app/main.py\<close>: the helper \<^verbatim>\<open>_hash_secret\<close>,
  the schema helper \<^verbatim>\<open>ensure_user_table_schema\<close> (with \<^verbatim>\<open>init_db\<close>) and
  \<^verbatim>\<open>seed_admin_user\<close>.  The database is an explicit state that every function
  takes and returns; an exception of the source is the first component of the result,
  and the store that is returned with it is what the database holds when the
  exception leaves the function.

  Conventions of the model.
  \<^item> A Python \<^verbatim>\<open>str\<close> is a \<^typ>\<open>string\<close>: the bytes of its UTF-8 encoding, which is
    how the values arrive from the process environment; \<^verbatim>\<open>value.encode("utf-8")\<close>
    is then the list of the byte values.
  \<^item> The store holds one table of interest, \<^verbatim>\<open>user\<close>.  Its rows are kept in rowid
    order; \<^verbatim>\<open>id\<close> is the primary key, so the row that the ORM loaded is
    addressed by its position in that order.
  \<^item> The Python code compares column names character by character.  The store
    refuses to add a column whose name it already has in another case of the
    letters; a statement finds a column by its exact name.
\<close>

subsection \<open>SHA-256, as \<^verbatim>\<open>hashlib.sha256\<close> computes it\<close>

type_synonym w32 = "32 word"

definition sha256_k :: "w32 list" where
  "sha256_k = [
    1116352408, 1899447441, 3049323471, 3921009573, 961987163, 1508970993,
    2453635748, 2870763221, 3624381080, 310598401, 607225278, 1426881987,
    1925078388, 2162078206, 2614888103, 3248222580, 3835390401, 4022224774,
    264347078, 604807628, 770255983, 1249150122, 1555081692, 1996064986,
    2554220882, 2821834349, 2952996808, 3210313671, 3336571891, 3584528711,
    113926993, 338241895, 666307205, 773529912, 1294757372, 1396182291,
    1695183700, 1986661051, 2177026350, 2456956037, 2730485921, 2820302411,
    3259730800, 3345764771, 3516065817, 3600352804, 4094571909, 275423344,
    430227734, 506948616, 659060556, 883997877, 958139571, 1322822218,
    1537002063, 1747873779, 1955562222, 2024104815, 2227730452, 2361852424,
    2428436474, 2756734187, 3204031479, 3329325298]"

definition sha256_init :: "w32 list" where
  "sha256_init = [1779033703, 3144134277, 1013904242, 2773480762,
                  1359893119, 2600822924, 528734635, 1541459225]"

definition ch :: "w32 \<Rightarrow> w32 \<Rightarrow> w32 \<Rightarrow> w32" where
  "ch x y z = (x AND y) XOR (NOT x AND z)"

definition maj :: "w32 \<Rightarrow> w32 \<Rightarrow> w32 \<Rightarrow> w32" where
  "maj x y z = (x AND y) XOR (x AND z) XOR (y AND z)"

definition big_sigma0 :: "w32 \<Rightarrow> w32" where
  "big_sigma0 x = word_rotr 2 x XOR word_rotr 13 x XOR word_rotr 22 x"

definition big_sigma1 :: "w32 \<Rightarrow> w32" where
  "big_sigma1 x = word_rotr 6 x XOR word_rotr 11 x XOR word_rotr 25 x"

definition small_sigma0 :: "w32 \<Rightarrow> w32" where
  "small_sigma0 x = word_rotr 7 x XOR word_rotr 18 x XOR drop_bit 3 x"

definition small_sigma1 :: "w32 \<Rightarrow> w32" where
  "small_sigma1 x = word_rotr 17 x XOR word_rotr 19 x XOR drop_bit 10 x"

definition be_word :: "nat list \<Rightarrow> w32" where
  "be_word bs = foldl (\<lambda>acc b. push_bit 8 acc OR of_nat b) 0 bs"

fun be_bytes :: "nat \<Rightarrow> nat \<Rightarrow> nat list" where
  "be_bytes 0 v = []"
| "be_bytes (Suc n) v = be_bytes n (v div 256) @ [v mod 256]"

function chunks :: "nat \<Rightarrow> 'a list \<Rightarrow> 'a list list" where
  "chunks n xs = (if n = 0 \<or> xs = [] then [] else take n xs # chunks n (drop n xs))"
  by pat_completeness auto
termination
  by (relation "measure (\<lambda>(n, xs). length xs)") auto

definition sha256_pad :: "nat list \<Rightarrow> nat list" where
  "sha256_pad msg =
     msg @ [128] @ replicate ((64 - (length msg + 9) mod 64) mod 64) 0
         @ be_bytes 8 (8 * length msg)"

fun extend_schedule :: "nat \<Rightarrow> w32 list \<Rightarrow> w32 list" where
  "extend_schedule 0 w = w"
| "extend_schedule (Suc n) w =
     (let t = length w
      in extend_schedule n
           (w @ [small_sigma1 (w ! (t - 2)) + w ! (t - 7)
                 + small_sigma0 (w ! (t - 15)) + w ! (t - 16)]))"

definition schedule :: "nat list \<Rightarrow> w32 list" where
  "schedule block = extend_schedule 48 (map be_word (chunks 4 block))"

fun sha256_round :: "w32 list \<Rightarrow> w32 \<times> w32 \<Rightarrow> w32 list" where
  "sha256_round [a, b, c, d, e, f, g, h] (k, w) =
     (let t1 = h + big_sigma1 e + ch e f g + k + w;
          t2 = big_sigma0 a + maj a b c
      in [t1 + t2, a, b, c, d + t1, e, f, g])"
| "sha256_round s _ = s"

definition sha256_compress :: "w32 list \<Rightarrow> nat list \<Rightarrow> w32 list" where
  "sha256_compress hs block =
     map2 (+) hs (foldl sha256_round hs (zip sha256_k (schedule block)))"

definition sha256 :: "nat list \<Rightarrow> w32 list" where
  "sha256 msg = foldl sha256_compress sha256_init (chunks 64 (sha256_pad msg))"

definition hex_digit :: "nat \<Rightarrow> char" where
  "hex_digit n = ''0123456789abcdef'' ! (n mod 16)"

definition hex_word :: "w32 \<Rightarrow> string" where
  "hex_word w = map (\<lambda>i. hex_digit (unat (drop_bit (4 * i) w AND 15))) [7, 6, 5, 4, 3, 2, 1, 0]"

definition hexdigest :: "w32 list \<Rightarrow> string" where
  "hexdigest ws = concat (map hex_word ws)"

text \<open>\<^verbatim>\<open>_hash_secret\<close>: the hex digest of the SHA-256 of the UTF-8 bytes.\<close>

definition hash_secret :: "string \<Rightarrow> string" where
  "hash_secret v = hexdigest (sha256 (map of_char v))"

subsection \<open>The store\<close>

datatype error =
    ConnectFailed
  | NoSuchTable
  | NoSuchColumn
  | DuplicateColumn
  | NotNullViolation
  | UniqueViolation
  | StaleData

text \<open>
  \<open>ConnectFailed\<close>, \<open>NoSuchTable\<close>, \<open>NoSuchColumn\<close> and \<open>DuplicateColumn\<close> are raised
  by SQLAlchemy as \<^verbatim>\<open>OperationalError\<close>, \<open>NotNullViolation\<close> and \<open>UniqueViolation\<close>
  as \<^verbatim>\<open>IntegrityError\<close>
  and \<open>StaleData\<close> as \<^verbatim>\<open>StaleDataError\<close>.  The source catches none of them.
\<close>

datatype val = VInt int | VText string | VBool bool | VTime nat

text \<open>A row maps a column name to its value; \<open>None\<close> is SQL \<^verbatim>\<open>NULL\<close>.\<close>

type_synonym row = "string \<rightharpoonup> val"

record column =
  col_name :: string
  col_type :: string
  col_notnull :: bool
  col_default :: "val option"

record table =
  columns :: "column list"
  username_unique :: bool
  rows :: "row list"

text \<open>The statements that change the store, as the store receives them.\<close>

datatype stmt =
    CreateTable "column list"
  | CreateUniqueIndex string
  | AlterAddColumn column
  | Insert row
  | Update nat "(string \<times> val) list"

record store =
  online :: bool
  user_table :: "table option"
  issued :: "stmt list"

definition issue :: "stmt \<Rightarrow> store \<Rightarrow> store" where
  "issue s st = st\<lparr>issued := issued st @ [s]\<rparr>"

text \<open>The process environment, and \<^verbatim>\<open>os.getenv(name, default)\<close>.\<close>

type_synonym env = "string \<rightharpoonup> string"

definition getenv :: "env \<Rightarrow> string \<Rightarrow> string \<Rightarrow> string" where
  "getenv e name dflt = (case e name of None \<Rightarrow> dflt | Some v \<Rightarrow> v)"

definition DATABASE_URL :: "env \<Rightarrow> string" where
  "DATABASE_URL e = getenv e ''DATABASE_URL'' ''sqlite:///./app.db''"

subsection \<open>A call of \<^verbatim>\<open>_hash_secret\<close> in the running process\<close>



subsection \<open>The \<^verbatim>\<open>User\<close> model\<close>

text \<open>
  The columns SQLModel derives from \<^verbatim>\<open>class User\<close>: a field typed \<^verbatim>\<open>Optional\<close>
  is nullable, every other field is \<^verbatim>\<open>NOT NULL\<close>.
\<close>

definition user_columns :: "column list" where
  "user_columns =
    [\<lparr>col_name = ''id'', col_type = ''INTEGER'', col_notnull = True, col_default = None\<rparr>,
     \<lparr>col_name = ''username'', col_type = ''VARCHAR'', col_notnull = True, col_default = None\<rparr>,
     \<lparr>col_name = ''email'', col_type = ''VARCHAR'', col_notnull = True, col_default = None\<rparr>,
     \<lparr>col_name = ''password_hash'', col_type = ''VARCHAR'', col_notnull = True, col_default = None\<rparr>,
     \<lparr>col_name = ''recovery_key_hash'', col_type = ''VARCHAR'', col_notnull = False, col_default = None\<rparr>,
     \<lparr>col_name = ''role'', col_type = ''VARCHAR'', col_notnull = True, col_default = None\<rparr>,
     \<lparr>col_name = ''is_active'', col_type = ''BOOLEAN'', col_notnull = True, col_default = None\<rparr>,
     \<lparr>col_name = ''created_at'', col_type = ''DATETIME'', col_notnull = True, col_default = None\<rparr>,
     \<lparr>col_name = ''deleted_at'', col_type = ''DATETIME'', col_notnull = False, col_default = None\<rparr>]"

definition user_column_names :: "string list" where
  "user_column_names = map col_name user_columns"

subsection \<open>\<^verbatim>\<open>ensure_user_table_schema\<close> and \<^verbatim>\<open>init_db\<close>\<close>

text \<open>
  \<^verbatim>\<open>SQLModel.metadata.create_all(engine)\<close>: connects, and creates the table with
  its unique index on \<^verbatim>\<open>username\<close> when the table does not exist.  An existing
  table is left as it is.
\<close>

definition create_all :: "store \<Rightarrow> error option \<times> store" where
  "create_all st =
     (if \<not> online st then (Some ConnectFailed, st)
      else case user_table st of
             Some t \<Rightarrow> (None, st)
           | None \<Rightarrow>
               (None, issue (CreateUniqueIndex ''username'')
                        (issue (CreateTable user_columns)
                           (st\<lparr>user_table :=
                                 Some \<lparr>columns = user_columns, username_unique = True,
                                       rows = []\<rparr>\<rparr>))))"

text \<open>The catalog query on \<^verbatim>\<open>sqlite_master\<close> and \<^verbatim>\<open>PRAGMA table_info('user')\<close>.\<close>

definition table_exists :: "store \<Rightarrow> bool" where
  "table_exists st = (user_table st \<noteq> None)"

definition table_info :: "store \<Rightarrow> column list" where
  "table_info st = (case user_table st of None \<Rightarrow> [] | Some t \<Rightarrow> columns t)"

text \<open>
  SQLite compares column names without regard to the case of the ASCII letters.
\<close>

definition lower_char :: "char \<Rightarrow> char" where
  "lower_char c =
     (let n = (of_char c :: nat)
      in if 65 \<le> n \<and> n \<le> 90 then char_of (n + 32) else c)"

definition lower_name :: "string \<Rightarrow> string" where
  "lower_name s = map lower_char s"

text \<open>
  \<^verbatim>\<open>ALTER TABLE "user" ADD COLUMN\<close>: refused when the table has a column of that
  name in any case; otherwise existing rows read \<^verbatim>\<open>NULL\<close> in the new column.
\<close>

definition add_column :: "column \<Rightarrow> store \<Rightarrow> error option \<times> store" where
  "add_column c st =
     (case user_table st of
        None \<Rightarrow> (Some NoSuchTable, issue (AlterAddColumn c) st)
      | Some t \<Rightarrow>
          if lower_name (col_name c) \<in> set (map (lower_name \<circ> col_name) (columns t))
          then (Some DuplicateColumn, issue (AlterAddColumn c) st)
          else (None, issue (AlterAddColumn c)
                        (st\<lparr>user_table := Some (t\<lparr>columns := columns t @ [c]\<rparr>)\<rparr>)))"

definition deleted_at_column :: column where
  "deleted_at_column =
     \<lparr>col_name = ''deleted_at'', col_type = ''DATETIME'', col_notnull = False, col_default = None\<rparr>"

text \<open>The \<^verbatim>\<open>with engine.connect() as connection\<close> block of \<^verbatim>\<open>ensure_user_table_schema\<close>.\<close>

definition migrate_user_table :: "store \<Rightarrow> error option \<times> store" where
  "migrate_user_table st =
     (if \<not> online st then (Some ConnectFailed, st)
      else if \<not> table_exists st then (None, st)
      else
        let existing_columns = set (map col_name (table_info st))
        in if ''deleted_at'' \<notin> existing_columns
           then add_column deleted_at_column st
           else (None, st))"

definition ensure_user_table_schema :: "env \<Rightarrow> store \<Rightarrow> error option \<times> store" where
  "ensure_user_table_schema e st =
     (case create_all st of
        (Some err, st1) \<Rightarrow> (Some err, st1)
      | (None, st1) \<Rightarrow>
          if \<not> prefix ''sqlite'' (DATABASE_URL e) then (None, st1)
          else migrate_user_table st1)"

definition init_db :: "env \<Rightarrow> store \<Rightarrow> error option \<times> store" where
  "init_db e st = ensure_user_table_schema e st"

subsection \<open>\<^verbatim>\<open>seed_admin_user\<close>\<close>

fun first_match :: "('a \<Rightarrow> bool) \<Rightarrow> 'a list \<Rightarrow> (nat \<times> 'a) option" where
  "first_match P [] = None"
| "first_match P (x # xs) =
     (if P x then Some (0, x)
      else case first_match P xs of
             None \<Rightarrow> None
           | Some (i, y) \<Rightarrow> Some (Suc i, y))"

definition has_username :: "string \<Rightarrow> row \<Rightarrow> bool" where
  "has_username u r = (r ''username'' = Some (VText u))"

text \<open>
  \<^verbatim>\<open>session.exec(select(User).where(User.username == username)).first()\<close>: the
  query names every column of the model, so it fails on a table that lacks one.
  The result is the first matching row with its position, or \<open>None\<close>.
\<close>

definition select_admin :: "string \<Rightarrow> store \<Rightarrow> error + (nat \<times> row) option" where
  "select_admin username st =
     (if \<not> online st then Inl ConnectFailed
      else case user_table st of
             None \<Rightarrow> Inl NoSuchTable
           | Some t \<Rightarrow>
               if \<not> set user_column_names \<subseteq> set (map col_name (columns t))
               then Inl NoSuchColumn
               else Inr (first_match (has_username username) (rows t)))"

fun row_id :: "row \<Rightarrow> int" where
  "row_id r = (case r ''id'' of Some (VInt i) \<Rightarrow> i | _ \<Rightarrow> 0)"

definition next_id :: "row list \<Rightarrow> int" where
  "next_id rs = fold (\<lambda>r m. max (row_id r) m) rs 0 + 1"

text \<open>
  The flush of a new object: \<^verbatim>\<open>INSERT INTO user\<close>.  The statement gives a value
  (or \<^verbatim>\<open>NULL\<close>) for every column of the model but \<^verbatim>\<open>id\<close>, which the store assigns
  as the next rowid; a column the model does not know takes its default.  The store
  refuses a \<^verbatim>\<open>NULL\<close> in a \<^verbatim>\<open>NOT NULL\<close> column, and then, where the table has the
  unique index on \<^verbatim>\<open>username\<close>, a second row of the same name; the transaction is
  then rolled back.
\<close>

definition stored_row :: "column list \<Rightarrow> row \<Rightarrow> row" where
  "stored_row cols r =
     (\<lambda>k. if k \<in> set user_column_names then r k
          else case find (\<lambda>c. col_name c = k) cols of
                 None \<Rightarrow> None
               | Some c \<Rightarrow> col_default c)"

definition not_null_ok :: "column list \<Rightarrow> row \<Rightarrow> bool" where
  "not_null_ok cols r = list_all (\<lambda>c. \<not> col_notnull c \<or> r (col_name c) \<noteq> None) cols"

definition insert_user :: "row \<Rightarrow> store \<Rightarrow> error option \<times> store" where
  "insert_user r st =
     (case user_table st of
        None \<Rightarrow> (Some NoSuchTable, issue (Insert r) st)
      | Some t \<Rightarrow>
          if \<not> set user_column_names \<subseteq> set (map col_name (columns t))
          then (Some NoSuchColumn, issue (Insert r) st)
          else
            let new_row = stored_row (columns t) (r(''id'' \<mapsto> VInt (next_id (rows t))))
            in if \<not> not_null_ok (columns t) new_row
               then (Some NotNullViolation, issue (Insert r) st)
               else if username_unique t \<and> r ''username'' \<noteq> None
                       \<and> r ''username'' \<in> set (map (\<lambda>x. x ''username'') (rows t))
               then (Some UniqueViolation, issue (Insert r) st)
               else (None, issue (Insert r)
                             (st\<lparr>user_table := Some (t\<lparr>rows := rows t @ [new_row]\<rparr>)\<rparr>)))"

fun set_fields :: "(string \<times> val) list \<Rightarrow> row \<Rightarrow> row" where
  "set_fields [] r = r"
| "set_fields ((k, v) # kvs) r = set_fields kvs (r(k \<mapsto> v))"

text \<open>
  The flush of a loaded object whose attributes were assigned: one \<^verbatim>\<open>UPDATE\<close> that
  sets exactly the assigned columns of the loaded row.
\<close>

definition update_user :: "nat \<Rightarrow> (string \<times> val) list \<Rightarrow> store \<Rightarrow> error option \<times> store" where
  "update_user i kvs st =
     (case user_table st of
        None \<Rightarrow> (Some NoSuchTable, issue (Update i kvs) st)
      | Some t \<Rightarrow>
          if \<not> i < length (rows t) then (Some StaleData, issue (Update i kvs) st)
          else (None, issue (Update i kvs)
                        (st\<lparr>user_table :=
                              Some (t\<lparr>rows := (rows t)[i := set_fields kvs (rows t ! i)]\<rparr>)\<rparr>)))"

text \<open>The values \<^verbatim>\<open>seed_admin_user\<close> reads from the environment.\<close>

definition admin_username :: "env \<Rightarrow> string" where
  "admin_username e = getenv e ''ADMIN_USERNAME'' ''admin''"

definition admin_email :: "env \<Rightarrow> string" where
  "admin_email e = getenv e ''ADMIN_EMAIL'' ''admin@example.com''"

definition admin_password :: "env \<Rightarrow> string" where
  "admin_password e = getenv e ''ADMIN_PASSWORD'' ''ChangeM3!''"

definition admin_role :: "env \<Rightarrow> string" where
  "admin_role e = getenv e ''ADMIN_ROLE'' ''admin''"

text \<open>
  \<^verbatim>\<open>_hash_secret(recovery_key) if recovery_key else None\<close>: an unset variable and
  an empty one both give \<open>None\<close>.
\<close>

definition admin_recovery_key_hash :: "env \<Rightarrow> string option" where
  "admin_recovery_key_hash e =
     (case e ''ADMIN_RECOVERY_KEY'' of
        None \<Rightarrow> None
      | Some k \<Rightarrow> if k = [] then None else Some (hash_secret k))"

text \<open>
  The object \<^verbatim>\<open>User(username=..., ..., is_active=True)\<close>: \<^verbatim>\<open>created_at\<close> is the
  clock reading \<open>now\<close>, \<^verbatim>\<open>id\<close> and \<^verbatim>\<open>deleted_at\<close> are \<open>None\<close>.
\<close>

definition new_admin :: "env \<Rightarrow> nat \<Rightarrow> row" where
  "new_admin e now =
     (let r = map_of
                [(''username'', VText (admin_username e)),
                 (''email'', VText (admin_email e)),
                 (''password_hash'', VText (hash_secret (admin_password e))),
                 (''role'', VText (admin_role e)),
                 (''is_active'', VBool True),
                 (''created_at'', VTime now)]
      in case admin_recovery_key_hash e of
           None \<Rightarrow> r
         | Some h \<Rightarrow> r(''recovery_key_hash'' \<mapsto> VText h))"

text \<open>
  The three comparisons of the \<^verbatim>\<open>else\<close> branch, in the order of the source; the
  result lists the attributes that were assigned, and \<^verbatim>\<open>updated\<close> is true when
  the list is not empty.
\<close>

definition admin_changes :: "env \<Rightarrow> row \<Rightarrow> (string \<times> val) list" where
  "admin_changes e admin =
     (if admin ''email'' \<noteq> Some (VText (admin_email e))
      then [(''email'', VText (admin_email e))] else [])
     @ (if admin ''role'' \<noteq> Some (VText (admin_role e))
        then [(''role'', VText (admin_role e))] else [])
     @ (case admin_recovery_key_hash e of
          None \<Rightarrow> []
        | Some h \<Rightarrow>
            if admin ''recovery_key_hash'' \<noteq> Some (VText h)
            then [(''recovery_key_hash'', VText h)] else [])"

text \<open>The body of the \<^verbatim>\<open>with get_session()\<close> block after the lookup, up to the commit.\<close>

definition reconcile_admin ::
  "env \<Rightarrow> nat \<Rightarrow> (nat \<times> row) option \<Rightarrow> store \<Rightarrow> error option \<times> store" where
  "reconcile_admin e now found st =
     (case found of
        None \<Rightarrow> insert_user (new_admin e now) st
      | Some (i, admin) \<Rightarrow>
          let changes = admin_changes e admin
          in if changes = [] then (None, st) else update_user i changes st)"

definition seed_admin_user :: "env \<Rightarrow> nat \<Rightarrow> store \<Rightarrow> error option \<times> store" where
  "seed_admin_user e now st =
     (case init_db e st of
        (Some err, st1) \<Rightarrow> (Some err, st1)
      | (None, st1) \<Rightarrow>
          (case select_admin (admin_username e) st1 of
             Inl err \<Rightarrow> (Some err, st1)
           | Inr found \<Rightarrow> reconcile_admin e now found st1))"

text \<open>
  Two instances starting against the same store: this instance has looked the
  admin up, and before its commit another instance runs \<^verbatim>\<open>seed_admin_user\<close> to
  the end (at clock reading \<open>now'\<close>).  This instance then commits what it decided
  from its own lookup.
\<close>

definition seed_admin_user_racing :: "env \<Rightarrow> nat \<Rightarrow> nat \<Rightarrow> store \<Rightarrow> error option \<times> store" where
  "seed_admin_user_racing e now' now st =
     (case init_db e st of
        (Some err, st1) \<Rightarrow> (Some err, st1)
      | (None, st1) \<Rightarrow>
          (case select_admin (admin_username e) st1 of
             Inl err \<Rightarrow> (Some err, st1)
           | Inr found \<Rightarrow> reconcile_admin e now found (snd (seed_admin_user e now' st1))))"

subsection \<open>Derived notions used in the proofs\<close>

text \<open>
  A store is \<open>settled\<close> when \<^verbatim>\<open>ensure_user_table_schema\<close> has nothing left to do on
  it; a table is \<open>complete\<close> when it has every column of the model, and it \<open>clashes\<close>
  when it has a column that SQLite takes for \<^verbatim>\<open>deleted_at\<close>.  \<open>seeded_rows\<close> and
  \<open>seed_statements\<close> name the rows and the statements that the reconcile step of
  \<^verbatim>\<open>seed_admin_user\<close> produces from the rows it finds, and \<open>insert_ok\<close> says that the
  new admin row passes the \<^verbatim>\<open>NOT NULL\<close> constraints of a table.  A statement
  \<open>writes_password_hash\<close> when it is an \<^verbatim>\<open>INSERT\<close> or an \<^verbatim>\<open>UPDATE\<close> that assigns the
  column.
\<close>

definition settled :: "env \<Rightarrow> store \<Rightarrow> bool" where
  "settled e st =
     (online st \<and>
      (case user_table st of
         None \<Rightarrow> False
       | Some t \<Rightarrow> prefix ''sqlite'' (DATABASE_URL e) \<longrightarrow> ''deleted_at'' \<in> set (map col_name (columns t))))"

definition seeded_rows :: "env \<Rightarrow> nat \<Rightarrow> column list \<Rightarrow> row list \<Rightarrow> row list" where
  "seeded_rows e now cols rs =
     (case first_match (has_username (admin_username e)) rs of
        None \<Rightarrow> rs @ [stored_row cols ((new_admin e now)(''id'' \<mapsto> VInt (next_id rs)))]
      | Some (i, a) \<Rightarrow> rs[i := set_fields (admin_changes e a) a])"

definition seed_statements :: "env \<Rightarrow> nat \<Rightarrow> row list \<Rightarrow> stmt list" where
  "seed_statements e now rs =
     (case first_match (has_username (admin_username e)) rs of
        None \<Rightarrow> [Insert (new_admin e now)]
      | Some (i, a) \<Rightarrow> if admin_changes e a = [] then [] else [Update i (admin_changes e a)])"

definition complete :: "table \<Rightarrow> bool" where
  "complete t = (set user_column_names \<subseteq> set (map col_name (columns t)))"

fun writes_password_hash :: "stmt \<Rightarrow> bool" where
  "writes_password_hash (Insert r) = True"
| "writes_password_hash (Update i kvs) = (''password_hash'' \<in> fst ` set kvs)"
| "writes_password_hash _ = False"

definition clashes :: "table \<Rightarrow> bool" where
  "clashes t =
     (lower_name ''deleted_at'' \<in> set (map (lower_name \<circ> col_name) (columns t)))"

definition insert_ok :: "env \<Rightarrow> nat \<Rightarrow> table \<Rightarrow> bool" where
  "insert_ok e now t =
     not_null_ok (columns t)
       (stored_row (columns t) ((new_admin e now)(''id'' \<mapsto> VInt (next_id (rows t)))))"

subsection \<open>Example stores\<close>

text \<open>
  A store with no table, an unreachable store, a table written by an older release
  (no \<^verbatim>\<open>recovery_key_hash\<close>, no \<^verbatim>\<open>deleted_at\<close>), an up-to-date table that also
  carries a column this release does not know, a table whose admin has a recovery
  digest, an environment with a new password, the store as \<^verbatim>\<open>create_all\<close> leaves
  the store with no table, an older table whose soft-deletion column is spelled
  \<^verbatim>\<open>DELETED_AT\<close>, and two states of the running process.
\<close>

definition fresh_store :: store where
  "fresh_store = \<lparr>online = True, user_table = None, issued = []\<rparr>"

definition offline_store :: store where
  "offline_store = \<lparr>online = False, user_table = None, issued = []\<rparr>"

definition legacy_columns :: "column list" where
  "legacy_columns =
    [\<lparr>col_name = ''id'', col_type = ''INTEGER'', col_notnull = True, col_default = None\<rparr>,
     \<lparr>col_name = ''username'', col_type = ''VARCHAR'', col_notnull = True, col_default = None\<rparr>,
     \<lparr>col_name = ''email'', col_type = ''VARCHAR'', col_notnull = True, col_default = None\<rparr>,
     \<lparr>col_name = ''password_hash'', col_type = ''VARCHAR'', col_notnull = True, col_default = None\<rparr>,
     \<lparr>col_name = ''role'', col_type = ''VARCHAR'', col_notnull = True, col_default = None\<rparr>,
     \<lparr>col_name = ''is_active'', col_type = ''BOOLEAN'', col_notnull = True, col_default = None\<rparr>,
     \<lparr>col_name = ''created_at'', col_type = ''DATETIME'', col_notnull = True, col_default = None\<rparr>]"

definition stale_admin :: row where
  "stale_admin =
     map_of [(''id'', VInt 2), (''username'', VText ''admin''),
             (''email'', VText ''old@example.com''), (''password_hash'', VText ''0000''),
             (''role'', VText ''admin''), (''is_active'', VBool True),
             (''created_at'', VTime 5), (''nickname'', VText ''root'')]"

definition other_user :: row where
  "other_user =
     map_of [(''id'', VInt 1), (''username'', VText ''bob''),
             (''email'', VText ''bob@example.com''), (''password_hash'', VText ''1111''),
             (''role'', VText ''user''), (''is_active'', VBool True),
             (''created_at'', VTime 4)]"

definition legacy_table :: table where
  "legacy_table = \<lparr>columns = legacy_columns, username_unique = True, rows = [other_user]\<rparr>"

definition legacy_store :: store where
  "legacy_store = \<lparr>online = True, user_table = Some legacy_table, issued = []\<rparr>"

definition current_table :: table where
  "current_table =
     \<lparr>columns = user_columns @ [\<lparr>col_name = ''nickname'', col_type = ''VARCHAR'', col_notnull = False, col_default = None\<rparr>],
      username_unique = True, rows = [other_user, stale_admin]\<rparr>"

definition current_store :: store where
  "current_store = \<lparr>online = True, user_table = Some current_table, issued = []\<rparr>"

definition keyed_admin :: row where
  "keyed_admin =
     map_of [(''id'', VInt 1), (''username'', VText ''admin''),
             (''email'', VText ''admin@example.com''), (''password_hash'', VText ''0000''),
             (''recovery_key_hash'', VText ''feed''),
             (''role'', VText ''admin''), (''is_active'', VBool True),
             (''created_at'', VTime 5)]"

definition keyed_table :: table where
  "keyed_table = \<lparr>columns = user_columns, username_unique = True, rows = [keyed_admin]\<rparr>"

definition keyed_store :: store where
  "keyed_store = \<lparr>online = True, user_table = Some keyed_table, issued = []\<rparr>"

definition rotated_env :: env where
  "rotated_env = [''ADMIN_PASSWORD'' \<mapsto> ''N3wSecret'']"

definition empty_user_table :: table where
  "empty_user_table = \<lparr>columns = user_columns, username_unique = True, rows = []\<rparr>"

definition created_store :: store where
  "created_store =
     issue (CreateUniqueIndex ''username'')
       (issue (CreateTable user_columns) (fresh_store\<lparr>user_table := Some empty_user_table\<rparr>))"





section \<open>Properties\<close>

subsection \<open>The digest\<close>


subsection \<open>Auxiliary lemmas\<close>

lemma issue_simps:
  "online (issue s st) = online st"
  "user_table (issue s st) = user_table st"
  "issued (issue s st) = issued st @ [s]"
  by (simp_all add: issue_def)

lemma deleted_at_in_user_columns: "''deleted_at'' \<in> set (map col_name user_columns)"
  by (simp add: user_columns_def)

lemma ensure_offline:
  "\<not> online st \<Longrightarrow> ensure_user_table_schema e st = (Some ConnectFailed, st)"
  by (simp add: ensure_user_table_schema_def create_all_def)

lemma ensure_fresh:
  assumes "online st" "user_table st = None"
  shows "ensure_user_table_schema e st =
           (None, issue (CreateUniqueIndex ''username'')
                    (issue (CreateTable user_columns)
                       (st\<lparr>user_table :=
                             Some \<lparr>columns = user_columns, username_unique = True, rows = []\<rparr>\<rparr>)))"
  using assms deleted_at_in_user_columns
  by (simp add: ensure_user_table_schema_def create_all_def migrate_user_table_def
        table_exists_def table_info_def issue_simps)

lemma ensure_existing:
  assumes "online st" "user_table st = Some t"
  shows "ensure_user_table_schema e st =
           (if prefix ''sqlite'' (DATABASE_URL e) \<and> ''deleted_at'' \<notin> set (map col_name (columns t))
            then if clashes t
                 then (Some DuplicateColumn, issue (AlterAddColumn deleted_at_column) st)
                 else (None, issue (AlterAddColumn deleted_at_column)
                          (st\<lparr>user_table := Some (t\<lparr>columns := columns t @ [deleted_at_column]\<rparr>)\<rparr>))
            else (None, st))"
  using assms
  by (simp add: ensure_user_table_schema_def create_all_def migrate_user_table_def
        table_exists_def table_info_def add_column_def deleted_at_column_def clashes_def)

lemma ensure_settled_noop: "settled e st \<Longrightarrow> ensure_user_table_schema e st = (None, st)"
  by (auto simp: settled_def ensure_existing split: option.splits)

lemma ensure_outcome:
  assumes "online st"
  shows "(fst (ensure_user_table_schema e st) = None
            \<and> settled e (snd (ensure_user_table_schema e st)))
       \<or> ensure_user_table_schema e st
            = (Some DuplicateColumn, issue (AlterAddColumn deleted_at_column) st)"
proof (cases "user_table st")
  case None
  with assms show ?thesis
    using deleted_at_in_user_columns
    by (simp add: ensure_fresh settled_def issue_simps)
next
  case (Some t)
  with assms show ?thesis
    by (simp add: ensure_existing settled_def issue_simps deleted_at_column_def)
qed


lemma first_match_None: "first_match P xs = None \<longleftrightarrow> (\<forall>x \<in> set xs. \<not> P x)"
  by (induction xs) (auto split: option.splits)

lemma first_match_Some:
  "first_match P xs = Some (i, x) \<Longrightarrow> i < length xs \<and> xs ! i = x \<and> P x"
  by (induction xs arbitrary: i) (auto split: option.splits if_splits)



lemma set_fields_other: "k \<notin> fst ` set kvs \<Longrightarrow> set_fields kvs r k = r k"
  by (induction kvs arbitrary: r) auto

lemma admin_changes_keys:
  "fst ` set (admin_changes e a) \<subseteq> {''email'', ''role'', ''recovery_key_hash''}"
  by (auto simp: admin_changes_def split: option.splits if_splits)

lemma set_fields_admin_changes_other:
  "k \<notin> {''email'', ''role'', ''recovery_key_hash''} \<Longrightarrow>
     set_fields (admin_changes e a) a k = a k"
  using admin_changes_keys [of e a] by (intro set_fields_other) blast



lemma user_column_names_eval:
  "user_column_names = [''id'', ''username'', ''email'', ''password_hash'', ''recovery_key_hash'',
                        ''role'', ''is_active'', ''created_at'', ''deleted_at'']"
  by (simp add: user_column_names_def user_columns_def)

lemma new_admin_fields:
  "new_admin e now ''username'' = Some (VText (admin_username e))"
  "new_admin e now ''email'' = Some (VText (admin_email e))"
  "new_admin e now ''password_hash'' = Some (VText (hash_secret (admin_password e)))"
  "new_admin e now ''role'' = Some (VText (admin_role e))"
  "new_admin e now ''is_active'' = Some (VBool True)"
  "new_admin e now ''created_at'' = Some (VTime now)"
  "new_admin e now ''deleted_at'' = None"
  "new_admin e now ''id'' = None"
  "new_admin e now ''recovery_key_hash'' = map_option VText (admin_recovery_key_hash e)"
  by (simp_all add: new_admin_def Let_def split: option.splits)

lemma new_admin_username: "new_admin e now ''username'' = Some (VText (admin_username e))"
  by (rule new_admin_fields)

lemma new_admin_outside:
  "k \<notin> set user_column_names \<Longrightarrow> new_admin e now k = None"
  by (simp add: user_column_names_eval new_admin_def Let_def split: option.splits)

lemma new_admin_None_iff:
  "(new_admin e now k = None) = (new_admin e now' k = None)"
  by (simp add: new_admin_def Let_def split: option.splits)

lemma stored_row_model:
  "k \<in> set user_column_names \<Longrightarrow> stored_row cols r k = r k"
  by (simp add: stored_row_def)

lemma model_keys:
  "''id'' \<in> set user_column_names" "''username'' \<in> set user_column_names"
  "''email'' \<in> set user_column_names" "''password_hash'' \<in> set user_column_names"
  "''recovery_key_hash'' \<in> set user_column_names" "''role'' \<in> set user_column_names"
  "''is_active'' \<in> set user_column_names" "''created_at'' \<in> set user_column_names"
  "''deleted_at'' \<in> set user_column_names"
  by (simp_all add: user_column_names_eval)

lemma stored_admin_fields:
  "stored_row cols ((new_admin e now)(''id'' \<mapsto> v)) ''id'' = Some v"
  "stored_row cols ((new_admin e now)(''id'' \<mapsto> v)) ''username'' = Some (VText (admin_username e))"
  "stored_row cols ((new_admin e now)(''id'' \<mapsto> v)) ''email'' = Some (VText (admin_email e))"
  "stored_row cols ((new_admin e now)(''id'' \<mapsto> v)) ''password_hash''
     = Some (VText (hash_secret (admin_password e)))"
  "stored_row cols ((new_admin e now)(''id'' \<mapsto> v)) ''role'' = Some (VText (admin_role e))"
  "stored_row cols ((new_admin e now)(''id'' \<mapsto> v)) ''is_active'' = Some (VBool True)"
  "stored_row cols ((new_admin e now)(''id'' \<mapsto> v)) ''created_at'' = Some (VTime now)"
  "stored_row cols ((new_admin e now)(''id'' \<mapsto> v)) ''deleted_at'' = None"
  "stored_row cols ((new_admin e now)(''id'' \<mapsto> v)) ''recovery_key_hash''
     = map_option VText (admin_recovery_key_hash e)"
  by (simp_all add: stored_row_model model_keys new_admin_fields)



lemma stored_row_fresh:
  "stored_row user_columns ((new_admin e now)(''id'' \<mapsto> v)) = (new_admin e now)(''id'' \<mapsto> v)"
proof (rule ext)
  fix k
  show "stored_row user_columns ((new_admin e now)(''id'' \<mapsto> v)) k
          = ((new_admin e now)(''id'' \<mapsto> v)) k"
  proof (cases "k \<in> set user_column_names")
    case True
    then show ?thesis by (rule stored_row_model)
  next
    case False
    then have n: "new_admin e now k = None" by (rule new_admin_outside)
    from False have i: "k \<noteq> ''id''" using model_keys(1) by blast
    from False have "find (\<lambda>c. col_name c = k) user_columns = None"
      by (auto simp: find_None_iff user_column_names_def)
    with False n i show ?thesis by (simp add: stored_row_def)
  qed
qed

lemma stored_None_iff:
  "(stored_row cols ((new_admin e now)(''id'' \<mapsto> v)) k = None)
     = (stored_row cols ((new_admin e now')(''id'' \<mapsto> v')) k = None)"
  using new_admin_None_iff [of e now k now']
  by (simp add: stored_row_def)

lemma insert_ok_indep:
  assumes "columns t' = columns t"
  shows "insert_ok e now' t' = insert_ok e now t"
  unfolding insert_ok_def not_null_ok_def list_all_iff assms
  using stored_None_iff [of "columns t" e now' _ _ now] by blast

lemma no_match_no_duplicate:
  assumes "first_match (has_username u) rs = None"
  shows "Some (VText u) \<notin> set (map (\<lambda>x. x ''username'') rs)"
  using assms by (auto simp: first_match_None has_username_def)

lemma seed_settled:
  "settled e st \<Longrightarrow>
     seed_admin_user e now st =
       (case select_admin (admin_username e) st of
          Inl err \<Rightarrow> (Some err, st)
        | Inr found \<Rightarrow> reconcile_admin e now found st)"
  by (simp add: seed_admin_user_def init_db_def ensure_settled_noop)

lemma seed_offline: "\<not> online st \<Longrightarrow> seed_admin_user e now st = (Some ConnectFailed, st)"
  by (simp add: seed_admin_user_def init_db_def ensure_offline)

lemma seed_ensure_fails:
  "ensure_user_table_schema e st = (Some err, st') \<Longrightarrow> seed_admin_user e now st = (Some err, st')"
  by (simp add: seed_admin_user_def init_db_def)

lemma seed_after_ensure:
  assumes "fst (ensure_user_table_schema e st) = None"
    and "settled e (snd (ensure_user_table_schema e st))"
  shows "seed_admin_user e now st = seed_admin_user e now (snd (ensure_user_table_schema e st))"
  using assms
  by (cases "ensure_user_table_schema e st")
     (simp add: seed_admin_user_def init_db_def ensure_settled_noop)

lemma settled_same_db:
  "online st' = online st \<Longrightarrow> user_table st' = user_table st \<Longrightarrow> settled e st' = settled e st"
  by (simp add: settled_def)

lemma select_admin_same_db:
  "online st' = online st \<Longrightarrow> user_table st' = user_table st
     \<Longrightarrow> select_admin u st' = select_admin u st"
  by (simp add: select_admin_def)

lemma seed_settled_incomplete:
  assumes "settled e st" "user_table st = Some t" "\<not> complete t"
  shows "seed_admin_user e now st = (Some NoSuchColumn, st)"
  using assms by (simp add: seed_settled select_admin_def settled_def complete_def)

lemma seed_settled_complete:
  assumes "settled e st" "user_table st = Some t" "complete t"
  shows "seed_admin_user e now st =
           (if first_match (has_username (admin_username e)) (rows t) = None \<and> \<not> insert_ok e now t
            then (Some NotNullViolation, issue (Insert (new_admin e now)) st)
            else (None, st\<lparr>user_table :=
                             Some (t\<lparr>rows := seeded_rows e now (columns t) (rows t)\<rparr>),
                           issued := issued st @ seed_statements e now (rows t)\<rparr>))"
proof -
  let ?P = "has_username (admin_username e)"
  have on: "online st" using assms(1) by (simp add: settled_def)
  have sel: "select_admin (admin_username e) st = Inr (first_match ?P (rows t))"
    using assms on by (simp add: select_admin_def complete_def)
  show ?thesis
  proof (cases "first_match ?P (rows t)")
    case None
    have "Some (VText (admin_username e)) \<notin> set (map (\<lambda>x. x ''username'') (rows t))"
      using None by (rule no_match_no_duplicate)
    with assms sel None show ?thesis
      by (simp add: seed_settled reconcile_admin_def insert_user_def new_admin_username
            seeded_rows_def seed_statements_def issue_def complete_def insert_ok_def Let_def)
  next
    case (Some p)
    obtain i a where p: "p = (i, a)" by (cases p)
    from first_match_Some [of ?P "rows t" i a] Some p
    have ia: "i < length (rows t)" "rows t ! i = a" by simp_all
    show ?thesis
    proof (cases "admin_changes e a = []")
      case True
      have "st\<lparr>user_table := Some (t\<lparr>rows := (rows t)[i := a]\<rparr>), issued := issued st\<rparr> = st"
        using assms(2) ia by (cases st) (simp add: list_update_same_conv)
      with assms sel Some p True show ?thesis
        by (simp add: seed_settled reconcile_admin_def seeded_rows_def seed_statements_def)
    next
      case False
      with assms sel Some p ia show ?thesis
        by (simp add: seed_settled reconcile_admin_def update_user_def Let_def
              seeded_rows_def seed_statements_def issue_def)
    qed
  qed
qed

lemma seeded_rows_length: "length rs \<le> length (seeded_rows e now cols rs)"
  by (simp add: seeded_rows_def split: option.splits)

lemma seeded_rows_old:
  assumes "i < length rs" "k \<notin> {''email'', ''role'', ''recovery_key_hash''}"
  shows "(seeded_rows e now cols rs ! i) k = (rs ! i) k"
proof (cases "first_match (has_username (admin_username e)) rs")
  case None
  with assms show ?thesis by (simp add: seeded_rows_def nth_append)
next
  case (Some p)
  obtain j a where p: "p = (j, a)" by (cases p)
  from first_match_Some [of _ rs j a] Some p have "j < length rs" "rs ! j = a" by simp_all
  with assms Some p show ?thesis
    by (cases "i = j") (simp_all add: seeded_rows_def set_fields_admin_changes_other)
qed

lemma complete_settled:
  "online st \<Longrightarrow> user_table st = Some t \<Longrightarrow> complete t \<Longrightarrow> settled e st"
  using deleted_at_in_user_columns
  by (auto simp: settled_def complete_def user_column_names_def)

lemma seeded_rows_recovery:
  assumes "admin_recovery_key_hash e = None" "i < length (seeded_rows e now cols rs)"
  shows "(seeded_rows e now cols rs ! i) ''recovery_key_hash''
           = (if i < length rs then (rs ! i) ''recovery_key_hash'' else None)"
proof (cases "first_match (has_username (admin_username e)) rs")
  case None
  with assms show ?thesis
    by (auto simp: seeded_rows_def nth_append stored_admin_fields)
next
  case (Some p)
  obtain j a where p: "p = (j, a)" by (cases p)
  from first_match_Some [of _ rs j a] Some p have j: "j < length rs" "rs ! j = a" by simp_all
  have "''recovery_key_hash'' \<notin> fst ` set (admin_changes e a)"
    using assms(1) by (auto simp: admin_changes_def split: if_splits)
  then have "set_fields (admin_changes e a) a ''recovery_key_hash'' = a ''recovery_key_hash''"
    by (rule set_fields_other)
  with assms Some p j show ?thesis
    by (cases "i = j") (simp_all add: seeded_rows_def)
qed

lemma seeded_rows_admin:
  assumes "first_match (has_username (admin_username e)) rs = Some (i, a)"
  shows "seeded_rows e now cols rs = rs[i := set_fields (admin_changes e a) a]"
    and "seed_statements e now rs =
           (if admin_changes e a = [] then [] else [Update i (admin_changes e a)])"
  using assms by (simp_all add: seeded_rows_def seed_statements_def)

lemma seed_table_cases:
  assumes "user_table st = Some t"
  shows "\<exists>t' ddl dml. user_table (snd (seed_admin_user e now st)) = Some t'
           \<and> username_unique t' = username_unique t
           \<and> (columns t' = columns t \<or> columns t' = columns t @ [deleted_at_column])
           \<and> (rows t' = rows t \<or> rows t' = seeded_rows e now (columns t') (rows t))
           \<and> issued (snd (seed_admin_user e now st)) = issued st @ ddl @ dml
           \<and> (ddl = [] \<or> ddl = [AlterAddColumn deleted_at_column])
           \<and> (dml = [] \<or> dml = seed_statements e now (rows t))"
proof (cases "online st")
  case False
  with assms show ?thesis by (simp add: seed_offline)
next
  case True
  let ?st1 = "snd (ensure_user_table_schema e st)"
  have "\<exists>t1 ddl. user_table ?st1 = Some t1 \<and> rows t1 = rows t
      \<and> username_unique t1 = username_unique t
      \<and> (columns t1 = columns t \<or> columns t1 = columns t @ [deleted_at_column])
      \<and> issued ?st1 = issued st @ ddl \<and> (ddl = [] \<or> ddl = [AlterAddColumn deleted_at_column])"
    using True assms by (simp add: ensure_existing issue_def)
  then obtain t1 ddl where t1: "user_table ?st1 = Some t1" "rows t1 = rows t"
      "username_unique t1 = username_unique t"
      "columns t1 = columns t \<or> columns t1 = columns t @ [deleted_at_column]"
      "issued ?st1 = issued st @ ddl" "ddl = [] \<or> ddl = [AlterAddColumn deleted_at_column]"
    by blast
  from ensure_outcome [OF True, of e] show ?thesis
  proof
    assume f: "ensure_user_table_schema e st
                 = (Some DuplicateColumn, issue (AlterAddColumn deleted_at_column) st)"
    have "seed_admin_user e now st
            = (Some DuplicateColumn, issue (AlterAddColumn deleted_at_column) st)"
      by (rule seed_ensure_fails [OF f])
    with assms show ?thesis
      by (intro exI [of _ t] exI [of _ "[AlterAddColumn deleted_at_column]"] exI [of _ "[]"])
         (simp add: issue_simps)
  next
    assume ok: "fst (ensure_user_table_schema e st) = None \<and> settled e ?st1"
    then have s1: "settled e ?st1" by simp
    have run: "seed_admin_user e now st = seed_admin_user e now ?st1"
      using ok by (intro seed_after_ensure) simp_all
    show ?thesis
    proof (cases "complete t1")
      case False
      from seed_settled_incomplete [OF s1 t1(1) False] run t1
      show ?thesis by auto
    next
      case c: True
      show ?thesis
      proof (cases "first_match (has_username (admin_username e)) (rows t1) = None
                      \<and> \<not> insert_ok e now t1")
        case True
        then have "seed_statements e now (rows t) = [Insert (new_admin e now)]"
          by (simp add: seed_statements_def t1(2))
        moreover have "snd (seed_admin_user e now st) = issue (Insert (new_admin e now)) ?st1"
          using seed_settled_complete [OF s1 t1(1) c, of now] run True by simp
        ultimately show ?thesis using t1 by (auto simp: issue_simps)
      next
        case False
        have "snd (seed_admin_user e now st) =
            ?st1\<lparr>user_table := Some (t1\<lparr>rows := seeded_rows e now (columns t1) (rows t1)\<rparr>),
                  issued := issued ?st1 @ seed_statements e now (rows t1)\<rparr>"
          using seed_settled_complete [OF s1 t1(1) c, of now] run False by auto
        with t1 show ?thesis by auto
      qed
    qed
  qed
qed

lemma insert_ok_fresh:
  "insert_ok e now \<lparr>columns = user_columns, username_unique = u, rows = rs\<rparr>"
  by (simp add: insert_ok_def not_null_ok_def user_columns_def stored_admin_fields)

lemma seed_fresh:
  assumes "online st" "user_table st = None"
  shows "seed_admin_user e now st =
           (None, st\<lparr>user_table :=
                       Some \<lparr>columns = user_columns, username_unique = True,
                             rows = [(new_admin e now)(''id'' \<mapsto> VInt 1)]\<rparr>,
                     issued := issued st @ [CreateTable user_columns, CreateUniqueIndex ''username'',
                                            Insert (new_admin e now)]\<rparr>)"
proof -
  let ?t = "\<lparr>columns = user_columns, username_unique = True, rows = []\<rparr>"
  let ?st1 = "issue (CreateUniqueIndex ''username'')
               (issue (CreateTable user_columns) (st\<lparr>user_table := Some ?t\<rparr>))"
  have e1: "ensure_user_table_schema e st = (None, ?st1)"
    by (rule ensure_fresh [OF assms])
  have t1: "user_table ?st1 = Some ?t" by (simp add: issue_simps)
  have c: "complete ?t" by (simp add: complete_def user_column_names_def)
  have s1: "settled e ?st1"
    using assms(1) by (intro complete_settled [OF _ t1 c]) (simp add: issue_simps)
  have "seed_admin_user e now st = seed_admin_user e now ?st1"
    using seed_after_ensure [of e st now] e1 s1 by simp
  also have "\<dots> = (None, ?st1\<lparr>user_table :=
                             Some (?t\<lparr>rows := seeded_rows e now (columns ?t) (rows ?t)\<rparr>),
                           issued := issued ?st1 @ seed_statements e now (rows ?t)\<rparr>)"
    using seed_settled_complete [OF s1 t1 c, of now] insert_ok_fresh [of e now True "[]"]
    by simp
  finally show ?thesis
    by (simp add: seeded_rows_def seed_statements_def next_id_def issue_def stored_row_fresh)
qed



lemma current_admin:
  "first_match (has_username (admin_username Map.empty)) (rows current_table) = Some (1, stale_admin)"
  by (simp add: current_table_def has_username_def admin_username_def getenv_def
        other_user_def stale_admin_def)

lemma current_complete:
  "set user_column_names \<subseteq> set (map col_name (columns current_table))"
  by (auto simp: current_table_def user_column_names_def)

lemma admin_changes_spare_password_hash:
  "''password_hash'' \<notin> fst ` set (admin_changes e a)"
  by (rule contra_subsetD [OF admin_changes_keys]) simp

lemma seed_statements_spare_password_hash:
  assumes "first_match (has_username (admin_username e)) rs = Some (i, a)"
  shows "\<forall>s \<in> set (seed_statements e now rs). \<not> writes_password_hash s"
  using assms admin_changes_spare_password_hash [of e a]
  by (simp add: seed_statements_def)

lemma rotated_admin:
  "first_match (has_username (admin_username rotated_env)) (rows current_table)
     = Some (1, stale_admin)"
  by (simp add: current_table_def has_username_def admin_username_def getenv_def
        other_user_def stale_admin_def rotated_env_def)

lemma init_db_online: "init_db e st = (None, st1) \<Longrightarrow> online st \<and> settled e st1"
proof -
  assume a: "init_db e st = (None, st1)"
  have on: "online st"
  proof (rule ccontr)
    assume "\<not> online st"
    from ensure_offline [OF this, of e] a show False by (simp add: init_db_def)
  qed
  from ensure_outcome [OF on, of e] a have "settled e st1" by (simp add: init_db_def)
  with on show ?thesis by simp
qed

lemma select_admin_None:
  assumes "select_admin u st = Inr None" "user_table st = Some t"
  shows "complete t \<and> first_match (has_username u) (rows t) = None"
  using assms by (simp add: select_admin_def complete_def split: if_splits)

lemma racing_conflict:
  assumes "init_db e st = (None, st1)"
    and "select_admin (admin_username e) st1 = Inr None"
    and "user_table st1 = Some t1"
    and "username_unique t1"
    and "fst (seed_admin_user e now' st1) = None"
  shows "seed_admin_user_racing e now' now st =
           (Some UniqueViolation,
            issue (Insert (new_admin e now)) (snd (seed_admin_user e now' st1)))"
proof -
  from init_db_online [OF assms(1)] have s1: "settled e st1" by simp
  from select_admin_None [OF assms(2,3)]
  have c: "complete t1" and fm: "first_match (has_username (admin_username e)) (rows t1) = None"
    by simp_all
  let ?row = "stored_row (columns t1) ((new_admin e now')(''id'' \<mapsto> VInt (next_id (rows t1))))"
  let ?t2 = "t1\<lparr>rows := rows t1 @ [?row]\<rparr>"
  let ?st2 = "st1\<lparr>user_table := Some ?t2,
                  issued := issued st1 @ [Insert (new_admin e now')]\<rparr>"
  have ok': "insert_ok e now' t1"
    using seed_settled_complete [OF s1 assms(3) c, of now'] fm assms(5)
    by (cases "insert_ok e now' t1") simp_all
  have run: "seed_admin_user e now' st1 = (None, ?st2)"
    using seed_settled_complete [OF s1 assms(3) c, of now'] fm ok'
    by (simp add: seeded_rows_def seed_statements_def)
  have ok: "insert_ok e now ?t2"
    using ok' insert_ok_indep [of ?t2 t1 e now now'] by simp
  have dup: "new_admin e now ''username'' \<in> set (map (\<lambda>x. x ''username'') (rows ?t2))"
    by (simp add: new_admin_username stored_admin_fields)
  have ins: "insert_user (new_admin e now) ?st2 =
               (Some UniqueViolation, issue (Insert (new_admin e now)) ?st2)"
    using c assms(4) dup ok
    by (simp add: insert_user_def complete_def new_admin_username insert_ok_def Let_def)
  show ?thesis
    by (simp add: seed_admin_user_racing_def assms(1,2) reconcile_admin_def run ins)
qed

lemma created_store_facts:
  "init_db e fresh_store = (None, created_store)"
  "select_admin u created_store = Inr None"
  "user_table created_store = Some empty_user_table"
  "username_unique empty_user_table"
proof -
  have f: "online fresh_store" "user_table fresh_store = None"
    by (simp_all add: fresh_store_def)
  show "init_db e fresh_store = (None, created_store)"
    by (simp add: init_db_def ensure_fresh [OF f] created_store_def empty_user_table_def)
  show "user_table created_store = Some empty_user_table"
    by (simp add: created_store_def issue_simps)
  show "username_unique empty_user_table"
    by (simp add: empty_user_table_def)
  show "select_admin u created_store = Inr None"
    by (simp add: select_admin_def created_store_def issue_simps fresh_store_def
          empty_user_table_def user_column_names_def)
qed

lemma created_store_seeded: "fst (seed_admin_user e now created_store) = None"
proof -
  have t: "user_table created_store = Some empty_user_table" by (rule created_store_facts)
  have on: "online created_store"
    by (simp add: created_store_def issue_simps fresh_store_def)
  have c: "complete empty_user_table"
    by (simp add: complete_def empty_user_table_def user_column_names_def)
  have s: "settled e created_store" by (rule complete_settled [OF on t c])
  have ok: "insert_ok e now empty_user_table"
    unfolding empty_user_table_def by (rule insert_ok_fresh)
  from seed_settled_complete [OF s t c, of now] ok show ?thesis by simp
qed




lemma legacy_no_clash: "\<not> clashes legacy_table"
  by code_simp

section \<open>The claims\<close>




text \<open>
C2.  The code at the table of the older release, whose columns are a strict subset
  of the expected ones: \<^verbatim>\<open>ensure_user_table_schema\<close> returns normally having added
  \<^verbatim>\<open>deleted_at\<close> only, \<^verbatim>\<open>recovery_key_hash\<close> is still missing, and the query of
  \<^verbatim>\<open>seed_admin_user\<close> then fails on the missing column.
\<close>

theorem ensure_schema_misses_recovery_key_hash:
  "online legacy_store \<and> user_table legacy_store = Some legacy_table
   \<and> set (map col_name (columns legacy_table)) \<subset> set user_column_names
   \<and> fst (ensure_user_table_schema Map.empty legacy_store) = None
   \<and> map col_name (table_info (snd (ensure_user_table_schema Map.empty legacy_store)))
       = [''id'', ''username'', ''email'', ''password_hash'', ''role'', ''is_active'',
          ''created_at'', ''deleted_at'']
   \<and> fst (seed_admin_user Map.empty 1 legacy_store) = Some NoSuchColumn"
proof -
  have on: "online legacy_store" and t: "user_table legacy_store = Some legacy_table"
    by (simp_all add: legacy_store_def)
  have sub: "set (map col_name (columns legacy_table)) \<subset> set user_column_names"
    by code_simp
  have sq: "prefix ''sqlite'' (DATABASE_URL Map.empty)"
    by (simp add: DATABASE_URL_def getenv_def)
  have miss: "''deleted_at'' \<notin> set (map col_name (columns legacy_table))"
    by (simp add: legacy_table_def legacy_columns_def)
  let ?t1 = "legacy_table\<lparr>columns := columns legacy_table @ [deleted_at_column]\<rparr>"
  let ?st1 = "issue (AlterAddColumn deleted_at_column) (legacy_store\<lparr>user_table := Some ?t1\<rparr>)"
  have en: "ensure_user_table_schema Map.empty legacy_store = (None, ?st1)"
    using sq miss legacy_no_clash by (simp add: ensure_existing [OF on t])
  have names: "map col_name (table_info ?st1)
          = [''id'', ''username'', ''email'', ''password_hash'', ''role'', ''is_active'',
             ''created_at'', ''deleted_at'']"
    by (simp add: table_info_def issue_simps)
       (simp add: legacy_table_def legacy_columns_def deleted_at_column_def)
  have t1: "user_table ?st1 = Some ?t1" by (simp add: issue_simps)
  have s1: "settled Map.empty ?st1"
    using on by (simp add: settled_def issue_simps deleted_at_column_def)
  have inc: "\<not> complete ?t1"
    by (simp add: complete_def user_column_names_eval)
       (simp add: legacy_table_def legacy_columns_def deleted_at_column_def)
  have "seed_admin_user Map.empty 1 legacy_store = seed_admin_user Map.empty 1 ?st1"
    using seed_after_ensure [of Map.empty legacy_store 1] en s1 by simp
  also have "\<dots> = (Some NoSuchColumn, ?st1)"
    by (rule seed_settled_incomplete [OF s1 t1 inc])
  finally have sd: "fst (seed_admin_user Map.empty 1 legacy_store) = Some NoSuchColumn" by simp
  from on t sub en names sd show ?thesis by simp
qed

text \<open>
C3. On a reachable store with no table, \<^verbatim>\<open>seed_admin_user\<close> returns normally; the
  table then has exactly the columns of the model and exactly one row, whose fields
  are the configured values, whose \<^verbatim>\<open>password_hash\<close> is the digest of the configured
  password and whose \<^verbatim>\<open>is_active\<close> flag is true.
\<close>

theorem seed_fresh_store:
  assumes "online st" and "user_table st = None"
  shows "fst (seed_admin_user e now st) = None
       \<and> (case user_table (snd (seed_admin_user e now st)) of
            None \<Rightarrow> False
          | Some t' \<Rightarrow>
              map col_name (columns t') = user_column_names
              \<and> length (rows t') = 1
              \<and> (rows t' ! 0) ''username'' = Some (VText (admin_username e))
              \<and> (rows t' ! 0) ''email'' = Some (VText (admin_email e))
              \<and> (rows t' ! 0) ''password_hash'' = Some (VText (hash_secret (admin_password e)))
              \<and> (rows t' ! 0) ''recovery_key_hash'' = map_option VText (admin_recovery_key_hash e)
              \<and> (rows t' ! 0) ''role'' = Some (VText (admin_role e))
              \<and> (rows t' ! 0) ''is_active'' = Some (VBool True)
              \<and> (rows t' ! 0) ''created_at'' = Some (VTime now)
              \<and> (rows t' ! 0) ''deleted_at'' = None)"
  by (simp add: seed_fresh [OF assms] user_column_names_def new_admin_fields)

text \<open>
C3, at the store with no table and the default environment.
\<close>

theorem seed_fresh_store_witness:
  "online fresh_store \<and> user_table fresh_store = None
   \<and> fst (seed_admin_user Map.empty 7 fresh_store) = None
   \<and> (case user_table (snd (seed_admin_user Map.empty 7 fresh_store)) of
        None \<Rightarrow> False
      | Some t' \<Rightarrow>
          map col_name (columns t') =
            [''id'', ''username'', ''email'', ''password_hash'', ''recovery_key_hash'',
             ''role'', ''is_active'', ''created_at'', ''deleted_at'']
          \<and> length (rows t') = 1
          \<and> (rows t' ! 0) ''username'' = Some (VText ''admin'')
          \<and> (rows t' ! 0) ''email'' = Some (VText ''admin@example.com'')
          \<and> (rows t' ! 0) ''password_hash'' = Some (VText (hash_secret ''ChangeM3!''))
          \<and> (rows t' ! 0) ''recovery_key_hash'' = None
          \<and> (rows t' ! 0) ''role'' = Some (VText ''admin'')
          \<and> (rows t' ! 0) ''is_active'' = Some (VBool True)
          \<and> (rows t' ! 0) ''created_at'' = Some (VTime 7)
          \<and> (rows t' ! 0) ''deleted_at'' = None)"
proof -
  have h: "online fresh_store" "user_table fresh_store = None"
    by (simp_all add: fresh_store_def)
  have v: "admin_username Map.empty = ''admin''" "admin_email Map.empty = ''admin@example.com''"
      "admin_password Map.empty = ''ChangeM3!''" "admin_role Map.empty = ''admin''"
      "admin_recovery_key_hash Map.empty = None"
    by (simp_all add: admin_username_def admin_email_def admin_password_def admin_role_def
          admin_recovery_key_hash_def getenv_def)
  from seed_fresh_store [OF h, of Map.empty 7] h show ?thesis
    by (simp add: v user_column_names_eval split: option.splits)
qed

text \<open>
C4. Whatever the table holds at the start, neither \<^verbatim>\<open>ensure_user_table_schema\<close> nor
  \<^verbatim>\<open>seed_admin_user\<close> drops the table, removes a column or removes a row: the old column
  list is a prefix of the new one, no row disappears, and every old row keeps its value
  in every column other than \<^verbatim>\<open>email\<close>, \<^verbatim>\<open>role\<close> and \<^verbatim>\<open>recovery_key_hash\<close>, columns
  unknown to the model included.
\<close>

theorem seed_nondestructive:
  assumes "user_table st = Some t"
  shows "(case user_table (snd (ensure_user_table_schema e st)) of
            None \<Rightarrow> False
          | Some t1 \<Rightarrow> prefix (columns t) (columns t1) \<and> rows t1 = rows t)
       \<and> (case user_table (snd (seed_admin_user e now st)) of
            None \<Rightarrow> False
          | Some t' \<Rightarrow>
              prefix (columns t) (columns t')
              \<and> length (rows t) \<le> length (rows t')
              \<and> (\<forall>i < length (rows t). \<forall>k.
                    k \<notin> {''email'', ''role'', ''recovery_key_hash''}
                    \<longrightarrow> (rows t' ! i) k = (rows t ! i) k))"
proof (rule conjI)
  show "case user_table (snd (ensure_user_table_schema e st)) of
            None \<Rightarrow> False
          | Some t1 \<Rightarrow> prefix (columns t) (columns t1) \<and> rows t1 = rows t"
    using assms
    by (cases "online st") (simp_all add: ensure_offline ensure_existing issue_simps)
next
  from seed_table_cases [OF assms, of e now]
  obtain t' where t': "user_table (snd (seed_admin_user e now st)) = Some t'"
      "columns t' = columns t \<or> columns t' = columns t @ [deleted_at_column]"
      "rows t' = rows t \<or> rows t' = seeded_rows e now (columns t') (rows t)"
    by blast
  have c: "prefix (columns t) (columns t')"
    using t'(2) by (rule disjE) simp_all
  have l: "length (rows t) \<le> length (rows t')"
    using t'(3) by (rule disjE) (simp_all add: seeded_rows_length)
  have r: "(rows t' ! i) k = (rows t ! i) k"
    if "i < length (rows t)" "k \<notin> {''email'', ''role'', ''recovery_key_hash''}" for i k
    using t'(3)
  proof
    assume "rows t' = rows t"
    then show ?thesis by simp
  next
    assume "rows t' = seeded_rows e now (columns t') (rows t)"
    then show ?thesis by (simp only: seeded_rows_old [OF that])
  qed
  from c l r show "case user_table (snd (seed_admin_user e now st)) of
            None \<Rightarrow> False
          | Some t' \<Rightarrow>
              prefix (columns t) (columns t')
              \<and> length (rows t) \<le> length (rows t')
              \<and> (\<forall>i < length (rows t). \<forall>k.
                    k \<notin> {''email'', ''role'', ''recovery_key_hash''}
                    \<longrightarrow> (rows t' ! i) k = (rows t ! i) k)"
    unfolding t'(1) option.case by blast
qed

text \<open>
C4, at a table that carries the extra column \<^verbatim>\<open>nickname\<close>.
\<close>

theorem seed_nondestructive_witness:
  "user_table current_store = Some current_table
   \<and> (case user_table (snd (seed_admin_user Map.empty 9 current_store)) of
        None \<Rightarrow> False
      | Some t' \<Rightarrow>
          prefix (columns current_table) (columns t')
          \<and> length (rows current_table) \<le> length (rows t')
          \<and> (rows t' ! 1) ''nickname'' = Some (VText ''root''))"
proof -
  have h: "user_table current_store = Some current_table"
    by (simp add: current_store_def)
  have l: "1 < length (rows current_table)" "rows current_table ! 1 = stale_admin"
    by (simp_all add: current_table_def)
  have n: "stale_admin ''nickname'' = Some (VText ''root'')"
    by (simp add: stale_admin_def)
  have k: "''nickname'' \<notin> {''email'', ''role'', ''recovery_key_hash''}"
    by simp
  from seed_nondestructive [OF h, of Map.empty 9]
  have "case user_table (snd (seed_admin_user Map.empty 9 current_store)) of
        None \<Rightarrow> False
      | Some t' \<Rightarrow>
          prefix (columns current_table) (columns t')
          \<and> length (rows current_table) \<le> length (rows t')
          \<and> (\<forall>i < length (rows current_table). \<forall>k.
                    k \<notin> {''email'', ''role'', ''recovery_key_hash''}
                    \<longrightarrow> (rows t' ! i) k = (rows current_table ! i) k)"
    by (rule conjunct2)
  then have main: "case user_table (snd (seed_admin_user Map.empty 9 current_store)) of
        None \<Rightarrow> False
      | Some t' \<Rightarrow>
          prefix (columns current_table) (columns t')
          \<and> length (rows current_table) \<le> length (rows t')
          \<and> (\<forall>i < length (rows current_table). \<forall>k.
                    k \<notin> {''email'', ''role'', ''recovery_key_hash''}
                    \<longrightarrow> (rows t' ! i) k = (rows current_table ! i) k)" .
  show ?thesis
  proof (cases "user_table (snd (seed_admin_user Map.empty 9 current_store))")
    case None
    from main [unfolded None option.case] show ?thesis by (rule FalseE)
  next
    case (Some t')
    note m = main [unfolded Some option.case]
    note p = m [THEN conjunct1]
    note q = m [THEN conjunct2, THEN conjunct1]
    note r = m [THEN conjunct2, THEN conjunct2, THEN spec, THEN mp, OF l(1), THEN spec, THEN mp, OF k]
    have v: "(rows t' ! 1) ''nickname'' = Some (VText ''root'')"
      by (simp only: r l(2) n)
    show ?thesis unfolding Some option.case by (intro conjI h p q v)
  qed
qed

text \<open>
C5. When the table holds a record of the configured user name, \<^verbatim>\<open>seed_admin_user\<close>
  leaves that record's \<^verbatim>\<open>password_hash\<close> as it was, whatever password is configured; it
  inserts nothing, and no statement it sends assigns \<^verbatim>\<open>password_hash\<close>.
\<close>

theorem seed_keeps_password_hash:
  assumes "user_table st = Some t"
    and "first_match (has_username (admin_username e)) (rows t) = Some (i, a)"
  shows "(case user_table (snd (seed_admin_user e now st)) of
            None \<Rightarrow> False
          | Some t' \<Rightarrow>
              length (rows t') = length (rows t)
              \<and> (rows t' ! i) ''password_hash'' = a ''password_hash'')
       \<and> (\<forall>s \<in> set (drop (length (issued st)) (issued (snd (seed_admin_user e now st)))).
             \<not> writes_password_hash s)"
proof -
  from first_match_Some [OF assms(2)]
  have ia: "i < length (rows t)" "rows t ! i = a" by simp_all
  from seed_table_cases [OF assms(1), of e now]
  obtain t' ddl dml where t': "user_table (snd (seed_admin_user e now st)) = Some t'"
      "rows t' = rows t \<or> rows t' = seeded_rows e now (columns t') (rows t)"
      "issued (snd (seed_admin_user e now st)) = issued st @ ddl @ dml"
      "ddl = [] \<or> ddl = [AlterAddColumn deleted_at_column]"
      "dml = [] \<or> dml = seed_statements e now (rows t)"
    by blast
  have sr: "seeded_rows e now (columns t') (rows t)
              = (rows t)[i := set_fields (admin_changes e a) a]"
    by (rule seeded_rows_admin(1) [OF assms(2)])
  have pw: "set_fields (admin_changes e a) a ''password_hash'' = a ''password_hash''"
    by (rule set_fields_other [OF admin_changes_spare_password_hash])
  have len: "length (rows t') = length (rows t)"
    using t'(2) by (rule disjE) (simp_all add: sr)
  have val: "(rows t' ! i) ''password_hash'' = a ''password_hash''"
    using t'(2) by (rule disjE) (simp_all add: sr ia pw)
  have d1: "\<forall>s \<in> set ddl. \<not> writes_password_hash s"
    using t'(4) by (rule disjE) simp_all
  have d2: "\<forall>s \<in> set dml. \<not> writes_password_hash s"
    using t'(5)
  proof
    assume "dml = []"
    then show ?thesis by simp
  next
    assume "dml = seed_statements e now (rows t)"
    with seed_statements_spare_password_hash [OF assms(2), of now]
    show ?thesis by blast
  qed
  have st: "\<forall>s \<in> set (drop (length (issued st)) (issued (snd (seed_admin_user e now st)))).
             \<not> writes_password_hash s"
    using d1 d2 by (simp add: t'(3) ball_Un)
  show ?thesis unfolding t'(1) option.case by (intro conjI len val st)
qed

text \<open>
C5, with a new password configured for an existing admin.
\<close>

theorem seed_keeps_password_hash_witness:
  "user_table current_store = Some current_table
   \<and> first_match (has_username (admin_username rotated_env)) (rows current_table)
        = Some (1, stale_admin)
   \<and> (case user_table (snd (seed_admin_user rotated_env 9 current_store)) of
         None \<Rightarrow> False
       | Some t' \<Rightarrow>
           length (rows t') = length (rows current_table)
           \<and> (rows t' ! 1) ''password_hash'' = Some (VText ''0000''))
   \<and> filter writes_password_hash
         (drop (length (issued current_store))
            (issued (snd (seed_admin_user rotated_env 9 current_store)))) = []"
proof -
  have h: "user_table current_store = Some current_table"
    by (simp add: current_store_def)
  have p: "stale_admin ''password_hash'' = Some (VText ''0000'')"
    by (simp add: stale_admin_def)
  note w = seed_keeps_password_hash [OF h rotated_admin, of 9, unfolded p]
  have f: "filter writes_password_hash
         (drop (length (issued current_store))
            (issued (snd (seed_admin_user rotated_env 9 current_store)))) = []"
    using w [THEN conjunct2] by (simp only: filter_False)
  show ?thesis by (intro conjI h rotated_admin w [THEN conjunct1] f)
qed

text \<open>
C6. On a reachable store whose table has every column of the model and holds the
  admin record with an email other than the configured one, the configured role and
  (when a recovery key is configured) the digest of that key: \<^verbatim>\<open>seed_admin_user\<close>
  returns normally, sends one \<^verbatim>\<open>UPDATE\<close> that assigns \<^verbatim>\<open>email\<close> only, and changes
  nothing else in the store.
\<close>

theorem seed_corrects_email_only:
  assumes "online st" and "user_table st = Some t"
    and "set user_column_names \<subseteq> set (map col_name (columns t))"
    and "first_match (has_username (admin_username e)) (rows t) = Some (i, a)"
    and "a ''email'' \<noteq> Some (VText (admin_email e))"
    and "a ''role'' = Some (VText (admin_role e))"
    and "case admin_recovery_key_hash e of
           None \<Rightarrow> True
         | Some h \<Rightarrow> a ''recovery_key_hash'' = Some (VText h)"
  shows "seed_admin_user e now st =
           (None, st\<lparr>user_table :=
                       Some (t\<lparr>rows := (rows t)[i := a(''email'' \<mapsto> VText (admin_email e))]\<rparr>),
                     issued := issued st @ [Update i [(''email'', VText (admin_email e))]]\<rparr>)"
proof -
  have c: "complete t" using assms(3) by (simp add: complete_def)
  have s: "settled e st" by (rule complete_settled [OF assms(1,2) c])
  have ch: "admin_changes e a = [(''email'', VText (admin_email e))]"
    using assms(5,6,7) by (simp add: admin_changes_def split: option.splits)
  show ?thesis
    by (simp add: seed_settled_complete [OF s assms(2) c] assms(4)
          seeded_rows_admin [OF assms(4)] ch)
qed

text \<open>
C6, at an admin record with a stale email.
\<close>

theorem seed_corrects_email_only_witness:
  "online current_store \<and> user_table current_store = Some current_table
   \<and> set user_column_names \<subseteq> set (map col_name (columns current_table))
   \<and> first_match (has_username (admin_username Map.empty)) (rows current_table)
        = Some (1, stale_admin)
   \<and> stale_admin ''email'' \<noteq> Some (VText (admin_email Map.empty))
   \<and> stale_admin ''role'' = Some (VText (admin_role Map.empty))
   \<and> admin_recovery_key_hash Map.empty = None
   \<and> seed_admin_user Map.empty 9 current_store =
        (None, current_store\<lparr>user_table :=
                 Some (current_table\<lparr>rows :=
                         [other_user, stale_admin(''email'' \<mapsto> VText ''admin@example.com'')]\<rparr>),
               issued := [Update 1 [(''email'', VText ''admin@example.com'')]]\<rparr>)"
proof -
  have h1: "online current_store" and h2: "user_table current_store = Some current_table"
    by (simp_all add: current_store_def)
  have h5: "stale_admin ''email'' \<noteq> Some (VText (admin_email Map.empty))"
    by (simp add: stale_admin_def admin_email_def getenv_def)
  have h6: "stale_admin ''role'' = Some (VText (admin_role Map.empty))"
    by (simp add: stale_admin_def admin_role_def getenv_def)
  have r: "admin_recovery_key_hash Map.empty = None"
    by (simp add: admin_recovery_key_hash_def)
  have h7: "case admin_recovery_key_hash Map.empty of
           None \<Rightarrow> True
         | Some h \<Rightarrow> stale_admin ''recovery_key_hash'' = Some (VText h)"
    by (simp add: r)
  have em: "admin_email Map.empty = ''admin@example.com''"
    by (simp add: admin_email_def getenv_def)
  have rs: "(rows current_table)[1 := x] = [other_user, x]" for x
    by (simp add: current_table_def)
  have iss: "issued current_store = []" by (simp add: current_store_def)
  have run: "seed_admin_user Map.empty 9 current_store =
        (None, current_store\<lparr>user_table :=
                 Some (current_table\<lparr>rows :=
                         [other_user, stale_admin(''email'' \<mapsto> VText ''admin@example.com'')]\<rparr>),
               issued := [Update 1 [(''email'', VText ''admin@example.com'')]]\<rparr>)"
    using seed_corrects_email_only [OF h1 h2 current_complete current_admin h5 h6 h7, of 9]
    by (simp only: em rs iss append_Nil)
  show ?thesis by (intro conjI h1 h2 current_complete current_admin h5 h6 r run)
qed

text \<open>
C7, as stated, fails.  Two instances start on a store with no table; the other one
  inserts the admin between this instance's lookup and its commit.  This instance's
  \<^verbatim>\<open>INSERT\<close> violates the unique index and the error leaves \<^verbatim>\<open>seed_admin_user\<close>: there is
  no retry through the update path.
\<close>

theorem racing_insert_propagates:
  "fst (seed_admin_user_racing Map.empty 1 2 fresh_store) = Some UniqueViolation"
  by (simp add: racing_conflict [OF created_store_facts created_store_seeded])

text \<open>
C7, amended.  When this instance found no admin, the table has the unique index on
  \<^verbatim>\<open>username\<close> and another instance has inserted the admin (its run returned
  normally) before this instance commits, \<^verbatim>\<open>seed_admin_user\<close> raises the uniqueness
  violation to its caller and the table stays as the other instance left it.
\<close>

theorem seed_conflict_not_retried:
  assumes "init_db e st = (None, st1)"
    and "select_admin (admin_username e) st1 = Inr None"
    and "user_table st1 = Some t1"
    and "username_unique t1"
    and "fst (seed_admin_user e now' st1) = None"
  shows "fst (seed_admin_user_racing e now' now st) = Some UniqueViolation
       \<and> user_table (snd (seed_admin_user_racing e now' now st))
           = user_table (snd (seed_admin_user e now' st1))"
  by (simp add: racing_conflict [OF assms] issue_simps)

text \<open>
C7 amended, at two instances starting on the store with no table.
\<close>

theorem seed_conflict_not_retried_witness:
  "init_db Map.empty fresh_store = (None, created_store)
   \<and> select_admin (admin_username Map.empty) created_store = Inr None
   \<and> user_table created_store = Some empty_user_table
   \<and> username_unique empty_user_table
   \<and> fst (seed_admin_user Map.empty 1 created_store) = None
   \<and> fst (seed_admin_user_racing Map.empty 1 2 fresh_store) = Some UniqueViolation
   \<and> user_table (snd (seed_admin_user_racing Map.empty 1 2 fresh_store))
       = user_table (snd (seed_admin_user Map.empty 1 created_store))"
proof -
  note w = seed_conflict_not_retried [OF created_store_facts created_store_seeded, of Map.empty 1 2]
  show ?thesis
    by (intro conjI created_store_facts created_store_seeded
          w [THEN conjunct1] w [THEN conjunct2])
qed

text \<open>
C8. On a reachable store with no table, \<^verbatim>\<open>PRAGMA table_info\<close> has no rows, the
  inspection block of \<^verbatim>\<open>ensure_user_table_schema\<close> returns normally and changes nothing,
  and the whole function returns normally having sent the \<^verbatim>\<open>CREATE\<close> statements and no
  \<^verbatim>\<open>ALTER\<close>.  On an unreachable store both raise the connection error.
\<close>

theorem absent_table_is_not_an_error:
  "(online st \<and> user_table st = None \<longrightarrow>
      table_info st = []
      \<and> migrate_user_table st = (None, st)
      \<and> fst (ensure_user_table_schema e st) = None
      \<and> issued (snd (ensure_user_table_schema e st))
          = issued st @ [CreateTable user_columns, CreateUniqueIndex ''username''])
   \<and> (\<not> online st \<longrightarrow>
        migrate_user_table st = (Some ConnectFailed, st)
        \<and> ensure_user_table_schema e st = (Some ConnectFailed, st))"
proof (intro conjI impI)
  assume a: "online st \<and> user_table st = None"
  then have on: "online st" and no: "user_table st = None" by simp_all
  show "table_info st = []" by (simp add: table_info_def no)
  show "migrate_user_table st = (None, st)"
    by (simp add: migrate_user_table_def table_exists_def on no)
  show "fst (ensure_user_table_schema e st) = None"
    by (simp add: ensure_fresh [OF on no])
  show "issued (snd (ensure_user_table_schema e st))
          = issued st @ [CreateTable user_columns, CreateUniqueIndex ''username'']"
    by (simp add: ensure_fresh [OF on no] issue_simps)
next
  assume off: "\<not> online st"
  show "migrate_user_table st = (Some ConnectFailed, st)"
    by (simp add: migrate_user_table_def off)
  show "ensure_user_table_schema e st = (Some ConnectFailed, st)"
    by (rule ensure_offline [OF off])
qed

text \<open>
C8, at the store with no table and at the unreachable store.
\<close>

theorem absent_table_is_not_an_error_witness:
  "online fresh_store \<and> user_table fresh_store = None
   \<and> table_info fresh_store = []
   \<and> migrate_user_table fresh_store = (None, fresh_store)
   \<and> fst (ensure_user_table_schema Map.empty fresh_store) = None
   \<and> issued (snd (ensure_user_table_schema Map.empty fresh_store))
       = [CreateTable user_columns, CreateUniqueIndex ''username'']
   \<and> \<not> online offline_store
   \<and> ensure_user_table_schema Map.empty offline_store = (Some ConnectFailed, offline_store)"
proof -
  have f: "online fresh_store \<and> user_table fresh_store = None"
    by (simp add: fresh_store_def)
  have o: "\<not> online offline_store" by (simp add: offline_store_def)
  have i: "issued fresh_store = []" by (simp add: fresh_store_def)
  note a = absent_table_is_not_an_error [of fresh_store Map.empty, THEN conjunct1, THEN mp, OF f]
  note b = absent_table_is_not_an_error [of offline_store Map.empty, THEN conjunct2, THEN mp, OF o]
  from f o a b show ?thesis by (simp add: i)
qed



text \<open>
C10. With \<^verbatim>\<open>ADMIN_RECOVERY_KEY\<close> unset, after \<^verbatim>\<open>seed_admin_user\<close> every row that was in
  the table has the \<^verbatim>\<open>recovery_key_hash\<close> it had, and a row that was added has
  \<^verbatim>\<open>NULL\<close> there.
\<close>

theorem seed_without_recovery_key:
  assumes "e ''ADMIN_RECOVERY_KEY'' = None"
  shows "case user_table (snd (seed_admin_user e now st)) of
           None \<Rightarrow> True
         | Some t' \<Rightarrow>
             \<forall>i < length (rows t').
               (rows t' ! i) ''recovery_key_hash'' =
                 (case user_table st of
                    None \<Rightarrow> None
                  | Some t \<Rightarrow> if i < length (rows t) then (rows t ! i) ''recovery_key_hash''
                              else None)"
proof -
  have r: "admin_recovery_key_hash e = None"
    using assms by (simp add: admin_recovery_key_hash_def)
  show ?thesis
  proof (cases "user_table st")
    case None
    show ?thesis
    proof (cases "online st")
      case False
      then show ?thesis by (simp add: seed_offline None)
    next
      case True
      show ?thesis
        by (simp add: seed_fresh [OF True None] None new_admin_fields r)
    qed
  next
    case (Some t)
    from seed_table_cases [OF Some, of e now]
    obtain t' where t': "user_table (snd (seed_admin_user e now st)) = Some t'"
        "rows t' = rows t \<or> rows t' = seeded_rows e now (columns t') (rows t)"
      by blast
    have "(rows t' ! i) ''recovery_key_hash'' =
            (if i < length (rows t) then (rows t ! i) ''recovery_key_hash'' else None)"
      if "i < length (rows t')" for i
      using t'(2)
    proof
      assume "rows t' = rows t"
      with that show ?thesis by simp
    next
      assume eq: "rows t' = seeded_rows e now (columns t') (rows t)"
      from that have "i < length (seeded_rows e now (columns t') (rows t))" by (simp only: eq)
      from seeded_rows_recovery [OF r this] show ?thesis by (simp only: eq)
    qed
    then show ?thesis unfolding t'(1) Some option.case by blast
  qed
qed

text \<open>
C10, at an admin record with a stored recovery digest, and at the store with no
  table.
\<close>

theorem seed_without_recovery_key_witness:
  "Map.empty ''ADMIN_RECOVERY_KEY'' = (None :: string option)
   \<and> (case user_table (snd (seed_admin_user Map.empty 9 keyed_store)) of
         None \<Rightarrow> False
       | Some t' \<Rightarrow> (rows t' ! 0) ''recovery_key_hash'' = Some (VText ''feed''))
   \<and> (case user_table (snd (seed_admin_user Map.empty 9 fresh_store)) of
         None \<Rightarrow> False
       | Some t' \<Rightarrow> (rows t' ! 0) ''recovery_key_hash'' = None)"
proof -
  have u: "Map.empty ''ADMIN_RECOVERY_KEY'' = (None :: string option)" by simp
  have k: "user_table keyed_store = Some keyed_table" by (simp add: keyed_store_def)
  have f: "online fresh_store" "user_table fresh_store = None" by (simp_all add: fresh_store_def)
  have kr: "rows keyed_table ! 0 = keyed_admin" "0 < length (rows keyed_table)"
    by (simp_all add: keyed_table_def)
  have kv: "keyed_admin ''recovery_key_hash'' = Some (VText ''feed'')"
    by (simp add: keyed_admin_def)
  from seed_table_cases [OF k, of Map.empty 9]
  obtain t' where t': "user_table (snd (seed_admin_user Map.empty 9 keyed_store)) = Some t'"
      "rows t' = rows keyed_table
         \<or> rows t' = seeded_rows Map.empty 9 (columns t') (rows keyed_table)"
    by blast
  have len: "0 < length (rows t')"
    using t'(2) seeded_rows_length [of "rows keyed_table" Map.empty 9 "columns t'"] kr(2)
    by auto
  have w0: "case user_table (snd (seed_admin_user Map.empty 9 keyed_store)) of
           None \<Rightarrow> True
         | Some t' \<Rightarrow>
             \<forall>i < length (rows t').
               (rows t' ! i) ''recovery_key_hash'' =
                 (case user_table keyed_store of
                    None \<Rightarrow> None
                  | Some t \<Rightarrow> if i < length (rows t) then (rows t ! i) ''recovery_key_hash''
                              else None)"
    by (rule seed_without_recovery_key) simp
  note w = w0 [unfolded t'(1) k option.case, THEN spec, THEN mp, OF len]
  have a: "(rows t' ! 0) ''recovery_key_hash'' = Some (VText ''feed'')"
    using w kr(2) by (simp add: kr(1) kv)
  have b: "case user_table (snd (seed_admin_user Map.empty 9 fresh_store)) of
         None \<Rightarrow> False
       | Some t' \<Rightarrow> (rows t' ! 0) ''recovery_key_hash'' = None"
    by (simp add: seed_fresh [OF f] new_admin_fields admin_recovery_key_hash_def)
  show ?thesis unfolding t'(1) option.case using u a b by simp
qed

end
